theory Spec2Isabelle
  imports Main
begin

section \<open>JavaScript values and promises\<close>

text \<open>
  The values that flow through \<^verbatim>\<open>packages/client/src/utils.js\<close>: what a promise fulfils
  or rejects with, what \<^verbatim>\<open>JSON.parse\<close> returns, what a request body may be. Numbers are
  integers here (status codes, counters); floating point is outside the model. A
  \<^verbatim>\<open>Buffer\<close> is the list of its bytes, a \<open>string\<close> of HOL.
\<close>

datatype jsval =
    JUndefined
  | JNull
  | JBool bool
  | JNum int
  | JStr string
  | JBuf string
  | JArr "jsval list"
  | JObj "(string \<times> jsval) list"

text \<open>JavaScript's \<^verbatim>\<open>ToBoolean\<close>: what \<^verbatim>\<open>if (v)\<close>, \<^verbatim>\<open>!v\<close> and \<^verbatim>\<open>a || b\<close> test.\<close>

fun truthy :: "jsval \<Rightarrow> bool" where
  "truthy JUndefined = False"
| "truthy JNull = False"
| "truthy (JBool b) = b"
| "truthy (JNum n) = (n \<noteq> 0)"
| "truthy (JStr s) = (s \<noteq> [])"
| "truthy (JBuf b) = True"
| "truthy (JArr xs) = True"
| "truthy (JObj kvs) = True"

text \<open>
  A promise that is no longer pending is fulfilled with a value or rejected with a
  reason. \<open>'a settlement option\<close> is the state of a promise, \<open>None\<close> while it is pending.
  \<^verbatim>\<open>resolve\<close> and \<^verbatim>\<open>reject\<close> settle a pending promise and do nothing to a settled one.
\<close>

datatype ('v, 'e) settlement = Fulfilled 'v | Rejected 'e

definition settle_once ::
  "('v, 'e) settlement \<Rightarrow> ('v, 'e) settlement option \<Rightarrow> ('v, 'e) settlement option" where
  "settle_once s p = (case p of None \<Rightarrow> Some s | Some old \<Rightarrow> Some old)"

section \<open>The concurrency pool\<close>

text \<open>
  \<^verbatim>\<open>pool(generator, context, concurrency)\<close>, lines 55 to 89. The generator is the list of
  the promises it has yet to yield, each one given by the way it will settle;
  \<^verbatim>\<open>iterator.next()\<close> takes the head, and answers \<^verbatim>\<open>done\<close> on the empty list, any number
  of times. The closure variables \<^verbatim>\<open>iterator\<close>, \<^verbatim>\<open>queue\<close>, \<^verbatim>\<open>ret\<close> and \<^verbatim>\<open>err\<close> are fields of the
  state, with two more that the JavaScript runtime holds: \<open>inflight\<close>, the promises that
  have the handlers of lines 74 to 82 attached and have not settled yet, and \<open>outcome\<close>,
  the state of the promise that \<^verbatim>\<open>pool\<close> returns. \<open>settled_log\<close> is a history variable
  (nothing reads it): the promises whose handlers have run, in the order they ran.
\<close>

type_synonym task = "(jsval, jsval) settlement"

record pool_state =
  iterator :: "task list"
  queue :: int
  ret :: "jsval list"
  err :: jsval
  inflight :: "task list"
  outcome :: "(jsval list, jsval) settlement option"
  settled_log :: "task list"

text \<open>Lines 68 to 70, the body of \<^verbatim>\<open>if (done || err)\<close>.\<close>

definition pool_finish :: "pool_state \<Rightarrow> pool_state" where
  "pool_finish st =
     (let st1 = (if queue st = 0 \<and> truthy (err st)
                 then st\<lparr>outcome := settle_once (Rejected (err st)) (outcome st)\<rparr>
                 else st)
      in (if queue st1 = 0
          then st1\<lparr>outcome := settle_once (Fulfilled (ret st1)) (outcome st1)\<rparr>
          else st1))"

text \<open>
  Lines 63 to 84, \<^verbatim>\<open>proceed\<close>. Each turn of the \<^verbatim>\<open>while\<close> loop calls \<^verbatim>\<open>iterator.next()\<close>
  first, and only then looks at \<^verbatim>\<open>done\<close> and \<^verbatim>\<open>err\<close>.
\<close>

function proceed :: "int \<Rightarrow> pool_state \<Rightarrow> pool_state" where
  "proceed concurrency st =
     (if queue st < concurrency then
        (case iterator st of
           [] \<Rightarrow> pool_finish st
         | promise # rest \<Rightarrow>
             (if truthy (err st) then pool_finish (st\<lparr>iterator := rest\<rparr>)
              else proceed concurrency
                     (st\<lparr>iterator := rest, queue := queue st + 1,
                         inflight := inflight st @ [promise]\<rparr>)))
      else st)"
  by pat_completeness auto
termination
  by (relation "measure (\<lambda>(c, st). length (iterator st))") auto

declare proceed.simps [simp del]

text \<open>Lines 56 to 61 and 87: the initial state, and the first call of \<^verbatim>\<open>proceed\<close>.\<close>

definition pool :: "task list \<Rightarrow> int \<Rightarrow> pool_state" where
  "pool generator concurrency =
     proceed concurrency
       \<lparr>iterator = generator, queue = 0, ret = [], err = JUndefined,
        inflight = [], outcome = None, settled_log = []\<rparr>"

text \<open>
  The handlers of lines 74 to 82, run when a promise in flight settles: the one at
  position \<open>i\<close> of \<open>inflight\<close>. The runtime runs a handler once, for a promise that has
  handlers attached, so a position past the end is no event at all.
\<close>

definition on_settle :: "int \<Rightarrow> nat \<Rightarrow> pool_state \<Rightarrow> pool_state" where
  "on_settle concurrency i st =
     (if i < length (inflight st) then
        (let promise = inflight st ! i;
             st1 = st\<lparr>inflight := take i (inflight st) @ drop (Suc i) (inflight st),
                      settled_log := settled_log st @ [promise]\<rparr>
         in (case promise of
               Fulfilled v \<Rightarrow>
                 proceed concurrency (st1\<lparr>queue := queue st1 - 1, ret := ret st1 @ [v]\<rparr>)
             | Rejected error \<Rightarrow>
                 proceed concurrency (st1\<lparr>queue := queue st1 - 1, err := error\<rparr>)))
      else st)"

text \<open>
  A run of the pool: the promises in flight settle in the order that \<open>schedule\<close> picks,
  each entry the position in \<open>inflight\<close> of the next promise to settle.
\<close>

fun pool_run :: "int \<Rightarrow> nat list \<Rightarrow> pool_state \<Rightarrow> pool_state" where
  "pool_run concurrency [] st = st"
| "pool_run concurrency (i # schedule) st =
     pool_run concurrency schedule (on_settle concurrency i st)"

text \<open>The reasons of the promises that rejected, in the order their handlers ran.\<close>

fun failures :: "task list \<Rightarrow> jsval list" where
  "failures [] = []"
| "failures (Fulfilled v # ts) = failures ts"
| "failures (Rejected e # ts) = e # failures ts"

fun succeeds :: "task \<Rightarrow> bool" where
  "succeeds (Fulfilled v) = True"
| "succeeds (Rejected e) = False"

text \<open>
  What holds of every state of a run: the conjuncts of the invariant that the proofs
  below carry from the first call of \<^verbatim>\<open>proceed\<close> through every handler.
\<close>

definition pool_inv :: "int \<Rightarrow> task list \<Rightarrow> pool_state \<Rightarrow> bool" where
  "pool_inv c tasks st \<longleftrightarrow>
     queue st = int (length (inflight st)) \<and>
     (0 \<le> c \<longrightarrow> queue st \<le> c) \<and>
     (outcome st \<noteq> None \<longrightarrow> inflight st = []) \<and>
     (outcome st \<noteq> None \<longrightarrow> 1 \<le> c) \<and>
     (1 \<le> c \<longrightarrow> inflight st = [] \<longrightarrow>
        outcome st = Some (if truthy (err st) then Rejected (err st) else Fulfilled (ret st))) \<and>
     err st = (if failures (settled_log st) = [] then JUndefined
               else last (failures (settled_log st))) \<and>
     (failures (settled_log st) = [] \<longrightarrow>
        length (settled_log st) + length (inflight st) + length (iterator st) = length tasks \<and>
        length (ret st) = length (settled_log st)) \<and>
     (queue st < c \<longrightarrow> iterator st = [] \<or> truthy (err st)) \<and>
     set (settled_log st) \<union> set (inflight st) \<union> set (iterator st) \<subseteq> set tasks"

section \<open>The retry engine\<close>

text \<open>
  \<^verbatim>\<open>retry(fn, { retries = 5, interval = 50 })\<close>, lines 96 to 112. The operation \<^verbatim>\<open>fn\<close>
  receives three callbacks; what it does with them is the environment's choice, so the
  engine is driven by events: a call of one of the callbacks, or a timer of
  \<^verbatim>\<open>setTimeout(run, interval)\<close> coming due. \<open>runs\<close> counts the calls of \<^verbatim>\<open>run\<close>, that is of
  \<^verbatim>\<open>fn\<close>; \<open>timers\<close> holds the delay of every timer that is set and has not fired, oldest
  first; \<open>promise\<close> is the promise that \<^verbatim>\<open>retry\<close> returns.
\<close>

datatype ('v, 'e) signal = Resolve 'v | Reject 'e | Retry 'e

record ('v, 'e) retry_state =
  retries :: int
  interval :: int
  timers :: "int list"
  runs :: nat
  promise :: "('v, 'e) settlement option"

text \<open>
  Lines 96 to 98 and 110: the defaults of the destructured parameter (\<open>None\<close> is
  \<^verbatim>\<open>undefined\<close>), and the first call of \<^verbatim>\<open>run\<close>.
\<close>

definition retry_start :: "int option \<Rightarrow> int option \<Rightarrow> ('v, 'e) retry_state" where
  "retry_start retries_opt interval_opt =
     \<lparr>retries = (case retries_opt of None \<Rightarrow> 5 | Some r \<Rightarrow> r),
      interval = (case interval_opt of None \<Rightarrow> 50 | Some i \<Rightarrow> i),
      timers = [], runs = 1, promise = None\<rparr>"

text \<open>Lines 101 to 107, the \<^verbatim>\<open>retry\<close> callback: \<^verbatim>\<open>retries-- > 0\<close> tests, then decrements.\<close>

definition retry_signal :: "'e \<Rightarrow> ('v, 'e) retry_state \<Rightarrow> ('v, 'e) retry_state" where
  "retry_signal error st =
     (if retries st > 0
      then st\<lparr>retries := retries st - 1, timers := timers st @ [interval st]\<rparr>
      else st\<lparr>retries := retries st - 1,
              promise := settle_once (Rejected error) (promise st)\<rparr>)"

text \<open>The oldest timer comes due and calls \<^verbatim>\<open>run\<close> (line 98).\<close>

definition timer_fire :: "('v, 'e) retry_state \<Rightarrow> ('v, 'e) retry_state" where
  "timer_fire st =
     (case timers st of
        [] \<Rightarrow> st
      | delay # pending \<Rightarrow> st\<lparr>timers := pending, runs := Suc (runs st)\<rparr>)"

fun on_signal :: "('v, 'e) signal \<Rightarrow> ('v, 'e) retry_state \<Rightarrow> ('v, 'e) retry_state" where
  "on_signal (Resolve v) st = st\<lparr>promise := settle_once (Fulfilled v) (promise st)\<rparr>"
| "on_signal (Reject error) st = st\<lparr>promise := settle_once (Rejected error) (promise st)\<rparr>"
| "on_signal (Retry error) st = retry_signal error st"

datatype ('v, 'e) retry_event = Signal "('v, 'e) signal" | Timeout

fun retry_step :: "('v, 'e) retry_event \<Rightarrow> ('v, 'e) retry_state \<Rightarrow> ('v, 'e) retry_state" where
  "retry_step (Signal s) st = on_signal s st"
| "retry_step Timeout st = timer_fire st"

fun retry_exec :: "('v, 'e) retry_event list \<Rightarrow> ('v, 'e) retry_state \<Rightarrow> ('v, 'e) retry_state" where
  "retry_exec [] st = st"
| "retry_exec (ev # evs) st = retry_exec evs (retry_step ev st)"


section \<open>The request function\<close>

text \<open>
  \<^verbatim>\<open>request(url, options = {}, callback)\<close>, lines 126 to 203. The objects of the source are
  records; a field that clashes with another record's carries a prefix. \<open>res\<close> is Node's
  \<^verbatim>\<open>IncomingMessage\<close>, \<open>response\<close> the object of line 186 that an error carries, and
  \<open>js_error\<close> an \<^verbatim>\<open>Error\<close> with the two properties that line 160 to 163 read. Header
  objects are maps from names to values, and \<open>None\<close> is \<^verbatim>\<open>undefined\<close> throughout.
\<close>

type_synonym header_map = "string \<rightharpoonup> string"

record res =
  res_statusCode :: int
  statusMessage :: "string option"
  res_headers :: header_map

record response =
  statusCode :: int
  headers :: header_map
  body :: jsval

record js_error =
  message :: string
  code :: "string option"
  response :: "response option"

text \<open>
  The callback returns a value (\<open>Inr\<close>), or throws, or returns a promise that rejects
  (\<open>Inl\<close>): line 180 awaits it inside the \<^verbatim>\<open>try\<close>.
\<close>

type_synonym callback = "jsval \<Rightarrow> res \<Rightarrow> js_error + jsval"

text \<open>
  The options object, as line 131 takes it apart. The flags are booleans, \<^verbatim>\<open>undefined\<close>
  being \<open>False\<close>; \<open>opt_agent\<close> is \<^verbatim>\<open>requestOptions.agent\<close>, an agent being known by a
  number, and \<open>passthrough\<close> holds the other keys of \<^verbatim>\<open>...requestOptions\<close>.
\<close>

record options =
  opt_body :: jsval
  opt_headers :: "header_map option"
  opt_retries :: "int option"
  retryNotFound :: bool
  opt_interval :: "int option"
  noProxy :: bool
  buffer :: bool
  opt_agent :: "nat option"
  passthrough :: "(string \<times> jsval) list"

definition empty_options :: options where
  "empty_options =
     \<lparr>opt_body = JUndefined, opt_headers = None, opt_retries = None, retryNotFound = False,
      opt_interval = None, noProxy = False, buffer = False, opt_agent = None,
      passthrough = []\<rparr>"

text \<open>
  The second argument of \<^verbatim>\<open>request\<close>: left out, a function, or an options object.
  Lines 126 to 128: the default \<^verbatim>\<open>{}\<close>, and the swap when it is a function.
\<close>

datatype second_arg = Omitted | FunctionArg callback | OptionsArg options

definition request_args :: "second_arg \<Rightarrow> callback option \<Rightarrow> options \<times> callback option" where
  "request_args options callback =
     (case options of
        Omitted \<Rightarrow> (empty_options, callback)
      | FunctionArg f \<Rightarrow> (empty_options, Some f)
      | OptionsArg opts \<Rightarrow> (opts, callback))"

text \<open>
  Lines 138 to 142. \<^verbatim>\<open>JSON.stringify\<close> is a parameter. The spread \<^verbatim>\<open>...headers\<close> adds the
  caller's keys after the default, so a caller's \<^verbatim>\<open>Content-Type\<close> replaces it; of
  \<^verbatim>\<open>undefined\<close> it adds nothing. The result is the text handed to \<^verbatim>\<open>req.end\<close> and the
  headers handed to \<^verbatim>\<open>http.request\<close>.
\<close>

definition normalize_body ::
  "(jsval \<Rightarrow> string) \<Rightarrow> jsval \<Rightarrow> header_map option \<Rightarrow> string option \<times> header_map option" where
  "normalize_body stringify body_opt headers_opt =
     (case body_opt of
        JUndefined \<Rightarrow> (None, headers_opt)
      | JStr text \<Rightarrow> (Some text, headers_opt)
      | structured \<Rightarrow>
          (Some (stringify structured),
           Some ([''Content-Type'' \<mapsto> ''application/json''] ++
                 (case headers_opt of None \<Rightarrow> Map.empty | Some hs \<Rightarrow> hs))))"

text \<open>Line 132: the parts of \<^verbatim>\<open>new URL(url)\<close> that the function reads.\<close>

record url_parts =
  url_protocol :: string
  url_hostname :: string
  url_port :: string
  pathname :: string
  search :: string
  hash :: string

text \<open>Lines 144 to 152: what \<^verbatim>\<open>http.request\<close> receives.\<close>

record request_options =
  agent :: "nat option"
  path :: string
  protocol :: string
  hostname :: string
  req_headers :: "header_map option"
  port :: string
  req_passthrough :: "(string \<times> jsval) list"

definition combine_options ::
  "(string \<Rightarrow> nat option) \<Rightarrow> string \<Rightarrow> url_parts \<Rightarrow> options \<Rightarrow> header_map option \<Rightarrow>
   request_options" where
  "combine_options proxyAgentFor url u opts hs =
     \<lparr>agent = (case opt_agent opts of
                 Some a \<Rightarrow> Some a
               | None \<Rightarrow> (if \<not> noProxy opts then proxyAgentFor url else None)),
      path = pathname u @ search u @ hash u,
      protocol = url_protocol u,
      hostname = url_hostname u,
      req_headers = hs,
      port = url_port u,
      req_passthrough = passthrough opts\<rparr>"

text \<open>Lines 115 to 118.\<close>

definition RETRY_ERROR_CODES :: "string list" where
  "RETRY_ERROR_CODES =
     [''ECONNREFUSED'', ''ECONNRESET'', ''EPIPE'', ''EHOSTUNREACH'', ''EAI_AGAIN'']"

text \<open>
  One attempt, the function of lines 154 to 202 that \<^verbatim>\<open>retry\<close> runs. \<open>handled\<close> is
  \<^verbatim>\<open>handleError.handled\<close>, \<open>incoming\<close> the response whose listeners line 193 to 195
  have registered, \<open>chunks\<close> the array of line 192, and \<open>signals\<close> the calls the attempt
  has made to the three callbacks of the retry engine, in order.
\<close>

type_synonym req_signal = "(jsval, js_error) signal"

record attempt_state =
  handled :: bool
  incoming :: "res option"
  chunks :: "string list"
  signals :: "req_signal list"

definition attempt_start :: attempt_state where
  "attempt_start = \<lparr>handled = False, incoming = None, chunks = [], signals = []\<rparr>"

text \<open>Lines 160 to 163. \<^verbatim>\<open>!!error.code\<close> is false of \<^verbatim>\<open>undefined\<close> and of the empty string.\<close>

definition shouldRetry :: "bool \<Rightarrow> js_error \<Rightarrow> bool" where
  "shouldRetry retry_not_found error =
     (case response error of
        Some r \<Rightarrow>
          (retry_not_found \<and> statusCode r = 404) \<or> (statusCode r \<ge> 500 \<and> statusCode r < 600)
      | None \<Rightarrow>
          (case code error of
             None \<Rightarrow> False
           | Some c \<Rightarrow> c \<noteq> [] \<and> c \<in> set RETRY_ERROR_CODES))"

text \<open>Lines 155 to 166.\<close>

definition handleError :: "bool \<Rightarrow> js_error \<Rightarrow> attempt_state \<Rightarrow> attempt_state" where
  "handleError retry_not_found error st =
     (if handled st then st
      else st\<lparr>handled := True,
              signals := signals st @
                [if shouldRetry retry_not_found error then Retry error else Reject error]\<rparr>)"

text \<open>
  Lines 170 to 176. The raw text is the bytes of the buffer (a HOL string is a list of
  bytes, so UTF-8 text is its own encoding); \<^verbatim>\<open>JSON.parse\<close> is a parameter, \<open>None\<close> when it
  throws.
\<close>

definition decode_body :: "(string \<Rightarrow> jsval option) \<Rightarrow> bool \<Rightarrow> string \<Rightarrow> jsval" where
  "decode_body parse buffer_opt bytes =
     (let raw = bytes;
          body1 = (if \<not> buffer_opt then JStr raw else JBuf bytes)
      in (case parse raw of Some parsed \<Rightarrow> parsed | None \<Rightarrow> body1))"

text \<open>
  Line 182, \<^verbatim>\<open>body?.errors?.find(e => e.detail)?.detail\<close>. Reading a property of
  \<^verbatim>\<open>null\<close> or \<^verbatim>\<open>undefined\<close>, or calling \<^verbatim>\<open>find\<close> on what is not an array, throws a
  \<^verbatim>\<open>TypeError\<close>, which the \<^verbatim>\<open>catch\<close> of line 185 receives. Only the keys \<^verbatim>\<open>errors\<close> and
  \<^verbatim>\<open>detail\<close> are read, which strings, numbers, arrays and buffers do not have.
\<close>

definition nullish :: "jsval \<Rightarrow> bool" where
  "nullish v = (v = JUndefined \<or> v = JNull)"

fun get_prop :: "jsval \<Rightarrow> string \<Rightarrow> jsval" where
  "get_prop (JObj kvs) k = (case map_of kvs k of Some v \<Rightarrow> v | None \<Rightarrow> JUndefined)"
| "get_prop v k = JUndefined"

definition type_error :: "string \<Rightarrow> js_error" where
  "type_error msg = \<lparr>message = msg, code = None, response = None\<rparr>"

fun find_detail :: "jsval list \<Rightarrow> js_error + jsval" where
  "find_detail [] = Inr JUndefined"
| "find_detail (e # es) =
     (if nullish e then Inl (type_error ''Cannot read properties of null or undefined'')
      else if truthy (get_prop e ''detail'') then Inr (get_prop e ''detail'')
      else find_detail es)"

definition error_detail :: "jsval \<Rightarrow> js_error + jsval" where
  "error_detail decoded =
     (if nullish decoded then Inr JUndefined
      else (case get_prop decoded ''errors'' of
              JUndefined \<Rightarrow> Inr JUndefined
            | JNull \<Rightarrow> Inr JUndefined
            | JArr es \<Rightarrow> find_detail es
            | other \<Rightarrow> Inl (type_error ''find is not a function'')))"

text \<open>
  Lines 168 to 189. \<open>to_string\<close> is JavaScript's conversion of a value to a string, which
  the \<^verbatim>\<open>Error\<close> constructor and the template of line 183 apply; it is a parameter.
\<close>

definition handleFinished ::
  "(string \<Rightarrow> jsval option) \<Rightarrow> (jsval \<Rightarrow> string) \<Rightarrow> options \<Rightarrow> callback option \<Rightarrow>
   string \<Rightarrow> res \<Rightarrow> attempt_state \<Rightarrow> attempt_state" where
  "handleFinished parse to_string opts callback bytes r st =
     (let raw = bytes;
          decoded = decode_body parse (buffer opts) bytes;
          attempt =
            (if res_statusCode r \<ge> 200 \<and> res_statusCode r < 300 then
               (case callback of
                  None \<Rightarrow> Inr decoded
                | Some f \<Rightarrow>
                    (case f decoded r of
                       Inl thrown \<Rightarrow> Inl thrown
                     | Inr v \<Rightarrow> Inr (if nullish v then decoded else v)))
             else
               (case error_detail decoded of
                  Inl thrown \<Rightarrow> Inl thrown
                | Inr detail \<Rightarrow>
                    Inl \<lparr>message =
                           (if truthy detail then to_string detail
                            else to_string (JNum (res_statusCode r)) @ '' '' @
                                 (case statusMessage r of
                                    None \<Rightarrow> raw
                                  | Some m \<Rightarrow> if m \<noteq> [] then m else raw)),
                         code = None, response = None\<rparr>))
      in (case attempt of
            Inr v \<Rightarrow> st\<lparr>signals := signals st @ [Resolve v]\<rparr>
          | Inl error \<Rightarrow>
              handleError (retryNotFound opts)
                (error\<lparr>response :=
                   Some \<lparr>statusCode = res_statusCode r, headers = res_headers r,
                         body = decoded\<rparr>\<rparr>)
                st))"

text \<open>
  The events that the request and its response emit, and the listeners of lines 191 to
  200. A response emits nothing before \<^verbatim>\<open>handleResponse\<close> has registered its listeners.
\<close>

datatype event =
    ReqError js_error
  | ReqResponse res
  | ResData string
  | ResEnd
  | ResError js_error

fun attempt_event ::
  "(string \<Rightarrow> jsval option) \<Rightarrow> (jsval \<Rightarrow> string) \<Rightarrow> options \<Rightarrow> callback option \<Rightarrow>
   event \<Rightarrow> attempt_state \<Rightarrow> attempt_state" where
  "attempt_event parse to_string opts callback (ReqError error) st =
     handleError (retryNotFound opts) error st"
| "attempt_event parse to_string opts callback (ReqResponse r) st =
     st\<lparr>incoming := Some r, chunks := []\<rparr>"
| "attempt_event parse to_string opts callback (ResData chunk) st =
     (case incoming st of None \<Rightarrow> st | Some r \<Rightarrow> st\<lparr>chunks := chunks st @ [chunk]\<rparr>)"
| "attempt_event parse to_string opts callback ResEnd st =
     (case incoming st of
        None \<Rightarrow> st
      | Some r \<Rightarrow> handleFinished parse to_string opts callback (concat (chunks st)) r st)"
| "attempt_event parse to_string opts callback (ResError error) st =
     (case incoming st of
        None \<Rightarrow> st
      | Some r \<Rightarrow> handleError (retryNotFound opts) error st)"

fun attempt_events ::
  "(string \<Rightarrow> jsval option) \<Rightarrow> (jsval \<Rightarrow> string) \<Rightarrow> options \<Rightarrow> callback option \<Rightarrow>
   event list \<Rightarrow> attempt_state \<Rightarrow> attempt_state" where
  "attempt_events parse to_string opts callback [] st = st"
| "attempt_events parse to_string opts callback (ev # evs) st =
     attempt_events parse to_string opts callback evs
       (attempt_event parse to_string opts callback ev st)"

text \<open>
  What the function takes from outside the file: the built-ins it calls, the proxy
  lookup of \<^verbatim>\<open>proxy.js\<close>, and the network. \<open>transport\<close> gives, for what was passed to
  \<^verbatim>\<open>http.request\<close> and \<^verbatim>\<open>req.end\<close>, the events of the first attempt, of the second, and so
  on.
\<close>

record env =
  parseURL :: "string \<Rightarrow> url_parts option"
  proxyAgentFor :: "string \<Rightarrow> nat option"
  JSON_stringify :: "jsval \<Rightarrow> string"
  JSON_parse :: "string \<Rightarrow> jsval option"
  to_String :: "jsval \<Rightarrow> string"
  transport :: "request_options \<Rightarrow> string option \<Rightarrow> event list list"

text \<open>
  The attempts in turn, under the retry engine: the signals of an attempt go to the
  engine, and when they leave a timer set, the timer fires and the next attempt runs.
  The events of one attempt all come before the next attempt starts. When the script
  of the transport is used up, nothing more happens.
\<close>

fun request_attempts ::
  "env \<Rightarrow> options \<Rightarrow> callback option \<Rightarrow> event list list \<Rightarrow>
   (jsval, js_error) retry_state \<Rightarrow> (jsval, js_error) retry_state" where
  "request_attempts e opts callback [] st = st"
| "request_attempts e opts callback (evs # later) st =
     (let a = attempt_events (JSON_parse e) (to_String e) opts callback evs attempt_start;
          st1 = fold on_signal (signals a) st
      in (case timers st1 of
            [] \<Rightarrow> st1
          | delay # pending \<Rightarrow> request_attempts e opts callback later (timer_fire st1)))"

text \<open>Lines 130 to 152: what is sent, \<open>None\<close> when \<^verbatim>\<open>new URL(url)\<close> throws.\<close>

definition request_prepare ::
  "env \<Rightarrow> string \<Rightarrow> options \<Rightarrow> (request_options \<times> string option) option" where
  "request_prepare e url opts =
     (case parseURL e url of
        None \<Rightarrow> None
      | Some u \<Rightarrow>
          (let (text, hs) = normalize_body (JSON_stringify e) (opt_body opts) (opt_headers opts)
           in Some (combine_options (proxyAgentFor e) url u opts hs, text)))"

text \<open>
  The whole function: the state of the promise it returns once the transport has
  nothing more to emit.
\<close>

definition request ::
  "env \<Rightarrow> string \<Rightarrow> second_arg \<Rightarrow> callback option \<Rightarrow> (jsval, js_error) settlement option" where
  "request e url options callback =
     (let (opts, cb) = request_args options callback
      in (case request_prepare e url opts of
            None \<Rightarrow>
              Some (Rejected \<lparr>message = ''Invalid URL'', code = Some ''ERR_INVALID_URL'',
                              response = None\<rparr>)
          | Some (requestOptions, text) \<Rightarrow>
              promise (request_attempts e opts cb (transport e requestOptions text)
                         (retry_start (opt_retries opts) (opt_interval opts)))))"

text \<open>
  A fragment of \<^verbatim>\<open>JSON.parse\<close> for evaluating examples: on these five texts it returns
  what \<^verbatim>\<open>JSON.parse\<close> returns. Theorems that hold of every parser quantify over the
  parser and do not use it.
\<close>

definition JSON_parse_fragment :: "string \<Rightarrow> jsval option" where
  "JSON_parse_fragment s =
     (if s = ''null'' then Some JNull
      else if s = ''true'' then Some (JBool True)
      else if s = ''false'' then Some (JBool False)
      else if s = ''{}'' then Some (JObj [])
      else if s = ''[]'' then Some (JArr [])
      else None)"

text \<open>The signals by which an attempt acts on an error: a retry or a rejection.\<close>

fun acted :: "req_signal \<Rightarrow> bool" where
  "acted (Resolve v) = False"
| "acted (Reject error) = True"
| "acted (Retry error) = True"

text \<open>
  What holds of an attempt after any events: it has acted on an error once if
  \<^verbatim>\<open>handleError.handled\<close> is set, and not at all if it is not.
\<close>

definition once :: "attempt_state \<Rightarrow> bool" where
  "once st \<longleftrightarrow> (if handled st then length (filter acted (signals st)) = 1
                 else filter acted (signals st) = [])"

subsection \<open>A scenario for evaluation\<close>

text \<open>
  A mocked environment, as a test of the function would set one up: one URL parses,
  there is no proxy, the built-ins answer for the values that the scenario hands them,
  and the server is unavailable four times before it answers.
\<close>

definition err_reset :: js_error where
  "err_reset = \<lparr>message = ''socket hang up'', code = Some ''ECONNRESET'', response = None\<rparr>"

definition unavailable :: "event list" where
  "unavailable =
     [ReqResponse \<lparr>res_statusCode = 503, statusMessage = Some ''Service Unavailable'',
                   res_headers = Map.empty\<rparr>,
      ResEnd]"

definition mock_env :: env where
  "mock_env =
     \<lparr>parseURL = (\<lambda>url. if url = ''http://example.test/items''
                        then Some \<lparr>url_protocol = ''http:'', url_hostname = ''example.test'',
                                   url_port = [], pathname = ''/items'', search = [],
                                   hash = []\<rparr>
                        else None),
      proxyAgentFor = (\<lambda>url. None),
      JSON_stringify = (\<lambda>v. ''[1]''),
      JSON_parse = JSON_parse_fragment,
      to_String = (\<lambda>v. case v of
                           JStr s \<Rightarrow> s
                         | JNum n \<Rightarrow> (if n = 503 then ''503'' else [])
                         | other \<Rightarrow> []),
      transport = (\<lambda>requestOptions text.
         [unavailable, unavailable, unavailable, unavailable,
          [ReqResponse \<lparr>res_statusCode = 200, statusMessage = Some ''OK'',
                        res_headers = Map.empty\<rparr>,
           ResData ''{'', ResData ''}'', ResEnd]])\<rparr>"

section \<open>Promises settle once\<close>

lemma settle_once_idem [simp]: "settle_once b (settle_once a p) = settle_once a p"
  by (simp add: settle_once_def split: option.splits)

lemma settle_once_None [simp]: "settle_once a None = Some a"
  by (simp add: settle_once_def)

lemma settle_once_Some [simp]: "settle_once a (Some x) = Some x"
  by (simp add: settle_once_def)

section \<open>Properties of the concurrency pool\<close>

subsection \<open>What one call of \<^verbatim>\<open>proceed\<close> does\<close>

lemma pool_finish_fields [simp]:
  "queue (pool_finish st) = queue st"
  "iterator (pool_finish st) = iterator st"
  "inflight (pool_finish st) = inflight st"
  "err (pool_finish st) = err st"
  "ret (pool_finish st) = ret st"
  "settled_log (pool_finish st) = settled_log st"
  by (simp_all add: pool_finish_def Let_def)

lemma pool_finish_outcome:
  "outcome (pool_finish st) =
     (if queue st = 0
      then settle_once (if truthy (err st) then Rejected (err st) else Fulfilled (ret st)) (outcome st)
      else outcome st)"
  by (simp add: pool_finish_def Let_def)

lemma proceed_keeps [simp]:
  "err (proceed c st) = err st \<and> ret (proceed c st) = ret st \<and>
   settled_log (proceed c st) = settled_log st"
proof (induction c st rule: proceed.induct)
  case (1 c st)
  then show ?case
    by (simp add: proceed.simps [of c st] split: list.splits)
qed

lemma proceed_queue_inflight:
  "queue st = int (length (inflight st)) \<Longrightarrow>
   queue (proceed c st) = int (length (inflight (proceed c st)))"
proof (induction c st rule: proceed.induct)
  case (1 c st)
  then show ?case
    by (simp add: proceed.simps [of c st] split: list.splits)
qed

lemma proceed_queue_le:
  "queue st \<le> c \<Longrightarrow> queue (proceed c st) \<le> c"
proof (induction c st rule: proceed.induct)
  case (1 c st)
  then show ?case
    by (simp add: proceed.simps [of c st] split: list.splits)
qed

lemma proceed_queue_ge:
  "queue st \<le> queue (proceed c st)"
proof (induction c st rule: proceed.induct)
  case (1 c st)
  then show ?case
    by (fastforce simp add: proceed.simps [of c st] split: list.splits)
qed

lemma proceed_outcome:
  "0 \<le> queue st \<Longrightarrow> outcome (proceed c st) =
     (if queue (proceed c st) = 0 \<and> 0 < c
      then settle_once (if truthy (err st) then Rejected (err st) else Fulfilled (ret st)) (outcome st)
      else outcome st)"
proof (induction c st rule: proceed.induct)
  case (1 c st)
  note nonneg = \<open>0 \<le> queue st\<close>
  show ?case
  proof (cases "queue st < c")
    case False
    then show ?thesis by (auto simp add: proceed.simps [of c st])
  next
    case lt: True
    show ?thesis
    proof (cases "iterator st")
      case Nil
      with lt nonneg show ?thesis
        by (auto simp add: proceed.simps [of c st] pool_finish_outcome)
    next
      case (Cons p rest)
      show ?thesis
      proof (cases "truthy (err st)")
        case True
        with lt Cons nonneg show ?thesis
          by (auto simp add: proceed.simps [of c st] pool_finish_outcome)
      next
        case False
        let ?st' = "st\<lparr>iterator := rest, queue := queue st + 1, inflight := inflight st @ [p]\<rparr>"
        have ge: "queue ?st' \<le> queue (proceed c ?st')" by (rule proceed_queue_ge)
        have eq: "proceed c st = proceed c ?st'"
          using lt Cons False by (simp add: proceed.simps [of c st])
        have ih: "outcome (proceed c ?st') =
            (if queue (proceed c ?st') = 0 \<and> 0 < c
             then settle_once (if truthy (err ?st') then Rejected (err ?st') else Fulfilled (ret ?st')) (outcome ?st')
             else outcome ?st')"
          using "1.IH" [OF lt Cons False] nonneg by simp
        show ?thesis
          using ge ih nonneg unfolding eq by auto
      qed
    qed
  qed
qed

lemma proceed_drained:
  "queue (proceed c st) < c \<Longrightarrow> iterator (proceed c st) = [] \<or> truthy (err st)"
proof (induction c st rule: proceed.induct)
  case (1 c st)
  then show ?case
    by (simp add: proceed.simps [of c st] split: list.splits if_splits)
qed

lemma proceed_count:
  "\<not> truthy (err st) \<Longrightarrow>
   length (inflight (proceed c st)) + length (iterator (proceed c st)) =
   length (inflight st) + length (iterator st)"
proof (induction c st rule: proceed.induct)
  case (1 c st)
  then show ?case
    by (simp add: proceed.simps [of c st] split: list.splits)
qed


lemma proceed_subset:
  "set (inflight (proceed c st)) \<union> set (iterator (proceed c st)) \<subseteq>
   set (inflight st) \<union> set (iterator st)"
proof (induction c st rule: proceed.induct)
  case (1 c st)
  then show ?case
    by (auto simp add: proceed.simps [of c st] split: list.splits)
qed

lemma failures_append [simp]: "failures (xs @ ys) = failures xs @ failures ys"
  by (induction xs rule: failures.induct) simp_all

lemma failures_all_succeed: "\<forall>t\<in>set ts. succeeds t \<Longrightarrow> failures ts = []"
  by (induction ts rule: failures.induct) simp_all

subsection \<open>The invariant of a run\<close>

lemma pool_inv_init: "pool_inv c tasks (pool tasks c)"
proof -
  let ?s0 = "\<lparr>iterator = tasks, queue = 0, ret = [], err = JUndefined,
        inflight = [], outcome = None, settled_log = []\<rparr>"
  have a: "queue (proceed c ?s0) = int (length (inflight (proceed c ?s0)))"
    by (rule proceed_queue_inflight) simp
  have b: "0 \<le> c \<Longrightarrow> queue (proceed c ?s0) \<le> c"
    by (rule proceed_queue_le) simp
  have o: "outcome (proceed c ?s0) =
      (if queue (proceed c ?s0) = 0 \<and> 0 < c then Some (Fulfilled []) else None)"
    using proceed_outcome [of ?s0 c] by simp
  have d: "queue (proceed c ?s0) < c \<Longrightarrow> iterator (proceed c ?s0) = []"
    using proceed_drained [of c ?s0] by simp
  have n: "length (inflight (proceed c ?s0)) + length (iterator (proceed c ?s0)) = length tasks"
    using proceed_count [of ?s0 c] by simp
  have s: "set (inflight (proceed c ?s0)) \<union> set (iterator (proceed c ?s0)) \<subseteq> set tasks"
    using proceed_subset [of c ?s0] by simp
  show ?thesis
    unfolding pool_inv_def pool_def
    using a b o d n s by (auto split: if_splits)
qed


lemma pool_inv_on_settle:
  assumes inv: "pool_inv c tasks st"
  shows "pool_inv c tasks (on_settle c i st)"
proof (cases "i < length (inflight st)")
  case False
  then show ?thesis using inv by (simp add: on_settle_def)
next
  case i: True
  have i1: "queue st = int (length (inflight st))"
    and i2: "0 \<le> c \<longrightarrow> queue st \<le> c"
    and i3: "outcome st \<noteq> None \<longrightarrow> inflight st = []"
    and i5: "err st = (if failures (settled_log st) = [] then JUndefined
               else last (failures (settled_log st)))"
    and i6: "failures (settled_log st) = [] \<longrightarrow>
        length (settled_log st) + length (inflight st) + length (iterator st) = length tasks \<and>
        length (ret st) = length (settled_log st)"
    and i8: "set (settled_log st) \<union> set (inflight st) \<union> set (iterator st) \<subseteq> set tasks"
    using inv unfolding pool_inv_def by blast+
  from i have nonempty: "inflight st \<noteq> []" by auto
  with i3 have pending: "outcome st = None" by blast
  define p where "p = inflight st ! i"
  define rest where "rest = take i (inflight st) @ drop (Suc i) (inflight st)"
  have len_rest: "length (inflight st) = Suc (length rest)"
    using i by (simp add: rest_def)
  have set_rest: "set rest \<subseteq> set (inflight st)"
    unfolding rest_def by (auto dest: in_set_takeD in_set_dropD)
  have p_in: "p \<in> set (inflight st)"
    using i by (simp add: p_def)
  define st1 where "st1 = st\<lparr>inflight := rest, settled_log := settled_log st @ [p]\<rparr>"
  define st2 where "st2 =
    (case p of
       Fulfilled v \<Rightarrow> st1\<lparr>queue := queue st1 - 1, ret := ret st1 @ [v]\<rparr>
     | Rejected e \<Rightarrow> st1\<lparr>queue := queue st1 - 1, err := e\<rparr>)"
  have "on_settle c i st =
      (case p of
         Fulfilled v \<Rightarrow> proceed c (st1\<lparr>queue := queue st1 - 1, ret := ret st1 @ [v]\<rparr>)
       | Rejected e \<Rightarrow> proceed c (st1\<lparr>queue := queue st1 - 1, err := e\<rparr>))"
    unfolding on_settle_def Let_def p_def rest_def st1_def using i by simp
  then have step: "on_settle c i st = proceed c st2"
    unfolding st2_def by (cases p) simp_all
  have st2_fields:
    "inflight st2 = rest" "iterator st2 = iterator st" "outcome st2 = None"
    "settled_log st2 = settled_log st @ [p]" "queue st2 = int (length rest)"
    using pending i1 len_rest unfolding st2_def st1_def by (cases p; simp)+
  have st2_err: "err st2 = (if failures (settled_log st2) = [] then JUndefined
                            else last (failures (settled_log st2)))"
    using i5 unfolding st2_def st1_def by (cases p) simp_all
  have st2_count: "failures (settled_log st2) = [] \<Longrightarrow>
      length (settled_log st2) + length (inflight st2) + length (iterator st2) = length tasks \<and>
      length (ret st2) = length (settled_log st2)"
    using i6 len_rest unfolding st2_def st1_def by (cases p) simp_all
  have st2_set: "set (settled_log st2) \<union> set (inflight st2) \<union> set (iterator st2) \<subseteq> set tasks"
    using i8 set_rest p_in unfolding st2_fields by auto
  have st2_le: "0 \<le> c \<Longrightarrow> queue st2 \<le> c"
    using i2 i1 len_rest st2_fields(5) by simp
  let ?r = "proceed c st2"
  have a: "queue ?r = int (length (inflight ?r))"
    by (rule proceed_queue_inflight) (simp add: st2_fields)
  have b: "0 \<le> c \<Longrightarrow> queue ?r \<le> c"
    using st2_le by (rule proceed_queue_le)
  have o: "outcome ?r =
      (if queue ?r = 0 \<and> 0 < c
       then Some (if truthy (err st2) then Rejected (err st2) else Fulfilled (ret st2))
       else None)"
    using proceed_outcome [of st2 c] by (simp add: st2_fields)
  have d: "queue ?r < c \<Longrightarrow> iterator ?r = [] \<or> truthy (err st2)"
    by (rule proceed_drained)
  have n: "\<not> truthy (err st2) \<Longrightarrow>
      length (inflight ?r) + length (iterator ?r) = length (inflight st2) + length (iterator st2)"
    by (rule proceed_count)
  have s: "set (inflight ?r) \<union> set (iterator ?r) \<subseteq> set (inflight st2) \<union> set (iterator st2)"
    by (rule proceed_subset)
  have k: "err ?r = err st2" "ret ?r = ret st2" "settled_log ?r = settled_log st2"
    by simp_all
  have c1: "queue ?r = int (length (inflight ?r))" by (rule a)
  have c2: "0 \<le> c \<longrightarrow> queue ?r \<le> c" using b by simp
  have c3: "outcome ?r \<noteq> None \<longrightarrow> inflight ?r = []"
    using o a by (auto split: if_splits)
  have c4: "1 \<le> c \<longrightarrow> inflight ?r = [] \<longrightarrow>
        outcome ?r = Some (if truthy (err ?r) then Rejected (err ?r) else Fulfilled (ret ?r))"
    using o a k by auto
  have c5: "err ?r = (if failures (settled_log ?r) = [] then JUndefined
               else last (failures (settled_log ?r)))"
    using st2_err k by simp
  have c6: "failures (settled_log ?r) = [] \<longrightarrow>
        length (settled_log ?r) + length (inflight ?r) + length (iterator ?r) = length tasks \<and>
        length (ret ?r) = length (settled_log ?r)"
  proof
    assume f: "failures (settled_log ?r) = []"
    then have f2: "failures (settled_log st2) = []" using k by simp
    with st2_err have "\<not> truthy (err st2)" by simp
    from n [OF this] st2_count [OF f2] k
    show "length (settled_log ?r) + length (inflight ?r) + length (iterator ?r) = length tasks \<and>
        length (ret ?r) = length (settled_log ?r)"
      by simp
  qed
  have c7: "queue ?r < c \<longrightarrow> iterator ?r = [] \<or> truthy (err ?r)"
    using d k by simp
  have c9: "outcome ?r \<noteq> None \<longrightarrow> 1 \<le> c"
    using o by (auto split: if_splits)
  have c8: "set (settled_log ?r) \<union> set (inflight ?r) \<union> set (iterator ?r) \<subseteq> set tasks"
    using s st2_set k by auto
  show ?thesis
    unfolding step pool_inv_def
    using c1 c2 c3 c9 c4 c5 c6 c7 c8 by blast
qed

lemma pool_inv_run:
  "pool_inv c tasks st \<Longrightarrow> pool_inv c tasks (pool_run c sched st)"
  by (induction sched arbitrary: st) (simp_all add: pool_inv_on_settle)


lemma pool_inv_reachable: "pool_inv c tasks (pool_run c sched (pool tasks c))"
  by (rule pool_inv_run [OF pool_inv_init])

lemmas pool_eval = pool_def proceed.simps on_settle_def pool_finish_def settle_once_def Let_def

subsection \<open>The concurrency ceiling\<close>

text \<open>
  Claim C5. For every ceiling \<open>c \<ge> 1\<close>, every list of tasks and every order in which the
  tasks in flight settle, the counter \<^verbatim>\<open>queue\<close> is the number of tasks in flight and
  stays between \<open>0\<close> and \<open>c\<close>. A pool that has not settled has a task in flight, so it
  waits for nothing else. On a run where every task succeeds, every task has settled, is
  in flight or is still to be yielded, each settled task has left one result, and once
  nothing is in flight the pool has resolved with its results, as many as there were
  tasks.
\<close>

theorem pool_concurrency_bound:
  assumes "1 \<le> c"
  shows "let st = pool_run c sched (pool tasks c) in
     0 \<le> queue st \<and> queue st \<le> c \<and> int (length (inflight st)) = queue st \<and>
     (outcome st = None \<longrightarrow> inflight st \<noteq> []) \<and>
     ((\<forall>t \<in> set tasks. succeeds t) \<longrightarrow>
        length (settled_log st) + length (inflight st) + length (iterator st) = length tasks \<and>
        length (ret st) = length (settled_log st)) \<and>
     ((\<forall>t \<in> set tasks. succeeds t) \<and> inflight st = [] \<longrightarrow>
        outcome st = Some (Fulfilled (ret st)) \<and> length (ret st) = length tasks)"
proof -
  define st where "st = pool_run c sched (pool tasks c)"
  have inv: "pool_inv c tasks st"
    unfolding st_def by (rule pool_inv_reachable)
  have i1: "queue st = int (length (inflight st))"
    and i2: "0 \<le> c \<longrightarrow> queue st \<le> c"
    and i4: "1 \<le> c \<longrightarrow> inflight st = [] \<longrightarrow>
        outcome st = Some (if truthy (err st) then Rejected (err st) else Fulfilled (ret st))"
    and i5: "err st = (if failures (settled_log st) = [] then JUndefined
               else last (failures (settled_log st)))"
    and i6: "failures (settled_log st) = [] \<longrightarrow>
        length (settled_log st) + length (inflight st) + length (iterator st) = length tasks \<and>
        length (ret st) = length (settled_log st)"
    and i7: "queue st < c \<longrightarrow> iterator st = [] \<or> truthy (err st)"
    and i8: "set (settled_log st) \<union> set (inflight st) \<union> set (iterator st) \<subseteq> set tasks"
    using inv unfolding pool_inv_def by blast+
  have bound: "0 \<le> queue st \<and> queue st \<le> c \<and> int (length (inflight st)) = queue st"
    using i1 i2 assms by simp
  have live: "outcome st = None \<longrightarrow> inflight st \<noteq> []"
    using i4 assms by auto
  have nofail: "failures (settled_log st) = []" if ok: "\<forall>t \<in> set tasks. succeeds t"
  proof -
    from ok i8 have "\<forall>t \<in> set (settled_log st). succeeds t" by blast
    then show ?thesis by (rule failures_all_succeed)
  qed
  have kept: "length (settled_log st) + length (inflight st) + length (iterator st) = length tasks \<and>
        length (ret st) = length (settled_log st)"
    if ok: "\<forall>t \<in> set tasks. succeeds t"
    using nofail [OF ok] i6 by blast
  have fin: "outcome st = Some (Fulfilled (ret st)) \<and> length (ret st) = length tasks"
    if ok: "\<forall>t \<in> set tasks. succeeds t" and drained: "inflight st = []"
  proof -
    from i5 nofail [OF ok] have noerr: "err st = JUndefined" by simp
    from drained i1 assms have "queue st < c" by simp
    with i7 noerr have "iterator st = []" by simp
    with kept [OF ok] drained have "length (ret st) = length tasks" by simp
    moreover from i4 assms drained noerr have "outcome st = Some (Fulfilled (ret st))" by simp
    ultimately show ?thesis by simp
  qed
  show ?thesis
    unfolding Let_def st_def [symmetric] using bound live kept fin by blast
qed

theorem pool_concurrency_bound_witness:
  "(1::int) \<le> 2 \<and>
   inflight (pool_run 2 [1, 0, 0]
      (pool [Fulfilled (JNum 1), Fulfilled (JNum 2), Fulfilled (JNum 3)] 2)) = [] \<and>
   queue (pool_run 2 [1]
      (pool [Fulfilled (JNum 1), Fulfilled (JNum 2), Fulfilled (JNum 3)] 2)) = 2 \<and>
   outcome (pool_run 2 [1, 0, 0]
      (pool [Fulfilled (JNum 1), Fulfilled (JNum 2), Fulfilled (JNum 3)] 2))
     = Some (Fulfilled [JNum 2, JNum 1, JNum 3])"
  using pool_concurrency_bound [of 2 "[1, 0, 0]"
      "[Fulfilled (JNum 1), Fulfilled (JNum 2), Fulfilled (JNum 3)]"]
  by (simp add: pool_eval)

subsection \<open>Which error the pool fails with\<close>

text \<open>
  Claim C1, as stated, fails: the handler of line 78 to 82 assigns \<^verbatim>\<open>err = error\<close> on
  every failure, so a later failure replaces the latched error. With two failing tasks
  in flight, the first settles first and the pool rejects with the error of the second.
\<close>

theorem pool_first_error_counterexample:
  "settled_log (pool_run 2 [0, 0]
      (pool [Rejected (JObj [(''message'', JStr ''first'')]),
             Rejected (JObj [(''message'', JStr ''second'')])] 2))
     = [Rejected (JObj [(''message'', JStr ''first'')]),
        Rejected (JObj [(''message'', JStr ''second'')])]
   \<and> outcome (pool_run 2 [0, 0]
      (pool [Rejected (JObj [(''message'', JStr ''first'')]),
             Rejected (JObj [(''message'', JStr ''second'')])] 2))
     = Some (Rejected (JObj [(''message'', JStr ''second'')]))"
  by (simp add: pool_eval)

text \<open>
  Claim C1, amended. For every ceiling \<open>c \<ge> 1\<close> and every run, a pool that has not
  settled has a task in flight; and once nothing is in flight, if some task has failed
  and the last task to fail (in the order the tasks settled) failed with a truthy value,
  the pool has rejected with that value.
\<close>

theorem pool_rejects_with_last_error:
  assumes "1 \<le> c"
  shows "let st = pool_run c sched (pool tasks c) in
     (outcome st = None \<longrightarrow> inflight st \<noteq> []) \<and>
     (inflight st = [] \<and> failures (settled_log st) \<noteq> [] \<and>
      truthy (last (failures (settled_log st))) \<longrightarrow>
        outcome st = Some (Rejected (last (failures (settled_log st)))))"
proof -
  have inv: "pool_inv c tasks (pool_run c sched (pool tasks c))"
    by (rule pool_inv_reachable)
  define st where "st = pool_run c sched (pool tasks c)"
  have e: "err st = (if failures (settled_log st) = [] then JUndefined
               else last (failures (settled_log st)))"
    and o: "1 \<le> c \<longrightarrow> inflight st = [] \<longrightarrow>
        outcome st = Some (if truthy (err st) then Rejected (err st) else Fulfilled (ret st))"
    using inv unfolding pool_inv_def st_def by blast+
  have "(outcome st = None \<longrightarrow> inflight st \<noteq> []) \<and>
     (inflight st = [] \<and> failures (settled_log st) \<noteq> [] \<and>
      truthy (last (failures (settled_log st))) \<longrightarrow>
        outcome st = Some (Rejected (last (failures (settled_log st)))))"
    using e o assms by auto
  then show ?thesis unfolding st_def Let_def .
qed

theorem pool_rejects_with_last_error_witness:
  "(1::int) \<le> 2 \<and>
   inflight (pool_run 2 [1, 0]
      (pool [Rejected (JStr ''a''), Rejected (JStr ''b''), Fulfilled (JNum 3)] 2)) = [] \<and>
   failures (settled_log (pool_run 2 [1, 0]
      (pool [Rejected (JStr ''a''), Rejected (JStr ''b''), Fulfilled (JNum 3)] 2)))
     = [JStr ''b'', JStr ''a''] \<and>
   outcome (pool_run 2 [1, 0]
      (pool [Rejected (JStr ''a''), Rejected (JStr ''b''), Fulfilled (JNum 3)] 2))
     = Some (Rejected (JStr ''a''))"
  using pool_rejects_with_last_error [of 2 "[1, 0]"
      "[Rejected (JStr ''a''), Rejected (JStr ''b''), Fulfilled (JNum 3)]"]
  by (simp add: pool_eval)

subsection \<open>Settling only after the tasks in flight\<close>




subsection \<open>The generator after an error\<close>

text \<open>
  Claim C10. When a task in flight settles and the error latched at that point is
  truthy (the task rejects with a truthy value, or it fulfils while a truthy error is
  latched), the handler's call of \<^verbatim>\<open>proceed\<close> takes one more promise from the generator,
  if there is one, and drops it: the promises in flight are the former ones without the
  one that settled, the counter goes down by one, and only the settled promise enters
  the log of observed outcomes.
\<close>

theorem pool_pulls_after_error:
  assumes "queue st \<le> c" and "i < length (inflight st)"
    and "case inflight st ! i of Fulfilled v \<Rightarrow> truthy (err st) | Rejected e \<Rightarrow> truthy e"
  shows "iterator (on_settle c i st) = drop 1 (iterator st) \<and>
         inflight (on_settle c i st) = take i (inflight st) @ drop (Suc i) (inflight st) \<and>
         queue (on_settle c i st) = queue st - 1 \<and>
         settled_log (on_settle c i st) = settled_log st @ [inflight st ! i]"
proof (cases "inflight st ! i")
  case (Fulfilled v)
  with assms show ?thesis
    by (cases "iterator st") (simp_all add: on_settle_def Let_def proceed.simps)
next
  case (Rejected e)
  with assms show ?thesis
    by (cases "iterator st") (simp_all add: on_settle_def Let_def proceed.simps)
qed

theorem pool_pulls_after_error_witness:
  "iterator (pool [Rejected (JStr ''boom''), Fulfilled (JNum 1), Fulfilled (JNum 2)] 1)
     = [Fulfilled (JNum 1), Fulfilled (JNum 2)] \<and>
   inflight (pool [Rejected (JStr ''boom''), Fulfilled (JNum 1), Fulfilled (JNum 2)] 1)
     = [Rejected (JStr ''boom'')] \<and>
   iterator (on_settle 1 0
      (pool [Rejected (JStr ''boom''), Fulfilled (JNum 1), Fulfilled (JNum 2)] 1))
     = [Fulfilled (JNum 2)] \<and>
   inflight (on_settle 1 0
      (pool [Rejected (JStr ''boom''), Fulfilled (JNum 1), Fulfilled (JNum 2)] 1)) = [] \<and>
   settled_log (on_settle 1 0
      (pool [Rejected (JStr ''boom''), Fulfilled (JNum 1), Fulfilled (JNum 2)] 1))
     = [Rejected (JStr ''boom'')]"
  using pool_pulls_after_error [of
      "pool [Rejected (JStr ''boom''), Fulfilled (JNum 1), Fulfilled (JNum 2)] 1" 1 0]
  by (simp add: pool_eval)

section \<open>Properties of the retry engine\<close>

lemma retry_step_interval [simp]: "interval (retry_step ev st) = interval st"
proof (cases ev)
  case (Signal s)
  then show ?thesis by (cases s) (simp_all add: retry_signal_def)
next
  case Timeout
  then show ?thesis by (simp add: timer_fire_def split: list.splits)
qed

lemma retry_exec_interval [simp]: "interval (retry_exec evs st) = interval st"
  by (induction evs arbitrary: st) simp_all










section \<open>Properties of the request function\<close>

subsection \<open>The callback as second argument\<close>

text \<open>
  Claim C9. Called with a function as its second argument, \<^verbatim>\<open>request\<close> takes the empty
  object as its options and the function as its callback, and so returns what
  \<^verbatim>\<open>request(url, {}, f)\<close> returns, whatever the URL and the environment.
\<close>

theorem request_callback_as_second_argument:
  "request_args (FunctionArg f) None = (empty_options, Some f) \<and>
   request e url (FunctionArg f) None = request e url (OptionsArg empty_options) (Some f)"
proof -
  have swap: "request_args (FunctionArg f) None = (empty_options, Some f)"
    by (simp add: request_args_def)
  have plain: "request_args (OptionsArg empty_options) (Some f) = (empty_options, Some f)"
    by (simp add: request_args_def)
  have "request e url (FunctionArg f) None = request e url (OptionsArg empty_options) (Some f)"
    unfolding request_def swap plain ..
  with swap show ?thesis by simp
qed

lemmas request_eval =
  request_def request_args_def request_prepare_def normalize_body_def combine_options_def
  empty_options_def mock_env_def unavailable_def retry_start_def attempt_start_def
  handleFinished_def handleError_def shouldRetry_def decode_body_def error_detail_def
  nullish_def JSON_parse_fragment_def retry_signal_def timer_fire_def settle_once_def Let_def

theorem request_callback_as_second_argument_witness:
  "request mock_env ''http://example.test/items'' (FunctionArg (\<lambda>decoded r. Inr JUndefined)) None
     = Some (Fulfilled (JObj [])) \<and>
   request mock_env ''http://example.test/items'' (OptionsArg empty_options)
       (Some (\<lambda>decoded r. Inr JUndefined))
     = Some (Fulfilled (JObj []))"
  using request_callback_as_second_argument [of "\<lambda>decoded r. Inr JUndefined" mock_env
      "''http://example.test/items''"]
  by (simp add: request_eval)

lemma request_gives_up:
  "request (mock_env\<lparr>transport := (\<lambda>requestOptions text. replicate 7 unavailable)\<rparr>)
     ''http://example.test/items'' Omitted None
   = Some (Rejected \<lparr>message = ''503 Service Unavailable'', code = None,
        response = Some \<lparr>statusCode = 503, headers = Map.empty, body = JStr []\<rparr>\<rparr>)"
  by (simp add: request_eval numeral_eq_Suc)

subsection \<open>The body of the request\<close>

text \<open>
  Claim C7. A body that is present and is not a string is sent as the text that
  \<^verbatim>\<open>JSON.stringify\<close> gives, with headers that hold the caller's \<^verbatim>\<open>Content-Type\<close> when the
  caller gave one, \<^verbatim>\<open>application/json\<close> when not, and the caller's value under every
  other name. A body that is a string is sent as it is, with the caller's headers. What
  \<^verbatim>\<open>http.request\<close> and \<^verbatim>\<open>req.end\<close> receive is that text and those headers.
\<close>

theorem request_body_normalized:
  "(b \<noteq> JUndefined \<and> (\<forall>s. b \<noteq> JStr s) \<longrightarrow>
      normalize_body stringify b hs =
        (Some (stringify b),
         Some (\<lambda>k. if k = ''Content-Type''
                    then (case hs of
                            None \<Rightarrow> Some ''application/json''
                          | Some caller \<Rightarrow>
                              (case caller ''Content-Type'' of
                                 None \<Rightarrow> Some ''application/json''
                               | Some supplied \<Rightarrow> Some supplied))
                    else (case hs of None \<Rightarrow> None | Some caller \<Rightarrow> caller k)))) \<and>
   normalize_body stringify (JStr text) hs = (Some text, hs) \<and>
   (parseURL e url = Some u \<longrightarrow>
      request_prepare e url opts =
        Some (combine_options (proxyAgentFor e) url u opts
                (snd (normalize_body (JSON_stringify e) (opt_body opts) (opt_headers opts))),
              fst (normalize_body (JSON_stringify e) (opt_body opts) (opt_headers opts))))"
proof -
  have a: "normalize_body stringify b hs =
        (Some (stringify b),
         Some (\<lambda>k. if k = ''Content-Type''
                    then (case hs of
                            None \<Rightarrow> Some ''application/json''
                          | Some caller \<Rightarrow>
                              (case caller ''Content-Type'' of
                                 None \<Rightarrow> Some ''application/json''
                               | Some supplied \<Rightarrow> Some supplied))
                    else (case hs of None \<Rightarrow> None | Some caller \<Rightarrow> caller k)))"
    if "b \<noteq> JUndefined" and "\<forall>s. b \<noteq> JStr s"
  proof -
    have m: "[''Content-Type'' \<mapsto> ''application/json''] ++
                 (case hs of None \<Rightarrow> Map.empty | Some hs \<Rightarrow> hs) =
          (\<lambda>k. if k = ''Content-Type''
                    then (case hs of
                            None \<Rightarrow> Some ''application/json''
                          | Some caller \<Rightarrow>
                              (case caller ''Content-Type'' of
                                 None \<Rightarrow> Some ''application/json''
                               | Some supplied \<Rightarrow> Some supplied))
                    else (case hs of None \<Rightarrow> None | Some caller \<Rightarrow> caller k))"
      by (rule ext) (simp add: map_add_def split: option.splits)
    from that show ?thesis
      unfolding m [symmetric] by (cases b) (simp_all add: normalize_body_def)
  qed
  have b: "normalize_body stringify (JStr text) hs = (Some text, hs)"
    by (simp add: normalize_body_def)
  have c: "request_prepare e url opts =
        Some (combine_options (proxyAgentFor e) url u opts
                (snd (normalize_body (JSON_stringify e) (opt_body opts) (opt_headers opts))),
              fst (normalize_body (JSON_stringify e) (opt_body opts) (opt_headers opts)))"
    if "parseURL e url = Some u"
    using that by (simp add: request_prepare_def split_beta)
  show ?thesis using a b c by blast
qed

theorem request_body_normalized_witness:
  "fst (normalize_body (\<lambda>v. ''[1]'') (JArr [JNum 1]) None) = Some ''[1]'' \<and>
   the (snd (normalize_body (\<lambda>v. ''[1]'') (JArr [JNum 1]) None)) ''Content-Type''
     = Some ''application/json'' \<and>
   the (snd (normalize_body (\<lambda>v. ''[1]'') (JArr [JNum 1])
          (Some [''Content-Type'' \<mapsto> ''text/plain'']))) ''Content-Type''
     = Some ''text/plain'' \<and>
   the (snd (normalize_body (\<lambda>v. ''[1]'') (JArr [JNum 1])
          (Some [''Accept'' \<mapsto> ''*/*'']))) ''Accept''
     = Some ''*/*''"
  using request_body_normalized [of "JArr [JNum 1]" "\<lambda>v. ''[1]''" None]
    request_body_normalized [of "JArr [JNum 1]" "\<lambda>v. ''[1]''"
      "Some [''Content-Type'' \<mapsto> ''text/plain'']"]
    request_body_normalized [of "JArr [JNum 1]" "\<lambda>v. ''[1]''"
      "Some [''Accept'' \<mapsto> ''*/*'']"]
  by simp

subsection \<open>Decoding the response\<close>

text \<open>
  Claim C2, as stated, fails: line 176 parses the raw text whatever \<^verbatim>\<open>buffer\<close> is, and a
  successful parse replaces the buffer that line 173 kept. With \<^verbatim>\<open>buffer = true\<close> and the
  raw text \<^verbatim>\<open>{}\<close> the decoded body is the empty object, not the bytes.
\<close>

theorem decode_buffer_counterexample:
  "decode_body JSON_parse_fragment True ''{}'' = JObj [] \<and>
   decode_body JSON_parse_fragment True ''{}'' \<noteq> JBuf ''{}''"
  by (simp add: decode_body_def JSON_parse_fragment_def)
lemma handleFinished_success:
  "200 \<le> res_statusCode r \<Longrightarrow> res_statusCode r < 300 \<Longrightarrow>
   signals (handleFinished parse ts opts None bytes r st) =
     signals st @ [Resolve (decode_body parse (buffer opts) bytes)]"
  by (simp add: handleFinished_def Let_def)

lemma handleFinished_failure:
  assumes "\<not> (200 \<le> res_statusCode r \<and> res_statusCode r < 300)" and "\<not> handled st"
  shows "\<exists>error. signals (handleFinished parse ts opts cb bytes r st) =
           signals st @ [if shouldRetry (retryNotFound opts) error then Retry error
                         else Reject error] \<and>
         response error = Some \<lparr>statusCode = res_statusCode r, headers = res_headers r,
                                 body = decode_body parse (buffer opts) bytes\<rparr>"
proof (cases "error_detail (decode_body parse (buffer opts) bytes)")
  case (Inl thrown)
  with assms show ?thesis
    by (auto simp add: handleFinished_def Let_def handleError_def)
next
  case (Inr detail)
  with assms show ?thesis
    by (auto simp add: handleFinished_def Let_def handleError_def)
qed

text \<open>
  Claim C2, amended. The decoded body is the parsed value if and only if the raw text
  parses as JSON, with or without \<^verbatim>\<open>buffer\<close>; when it does not parse, the decoded body is
  the raw bytes if \<^verbatim>\<open>buffer\<close> is \<^verbatim>\<open>true\<close> and the raw text if not. That decoded body is
  what a 2xx response without a callback resolves with, and what the response object
  of the error carries otherwise.
\<close>

theorem decode_body_json_first:
  "(parse bytes = Some v \<longrightarrow> decode_body parse buffer_opt bytes = v) \<and>
   (parse bytes = None \<longrightarrow>
      decode_body parse buffer_opt bytes = (if buffer_opt then JBuf bytes else JStr bytes)) \<and>
   (200 \<le> res_statusCode r \<and> res_statusCode r < 300 \<longrightarrow>
      signals (handleFinished parse ts opts None bytes r st) =
        signals st @ [Resolve (decode_body parse (buffer opts) bytes)]) \<and>
   (\<not> (200 \<le> res_statusCode r \<and> res_statusCode r < 300) \<and> \<not> handled st \<longrightarrow>
      (\<exists>error. signals (handleFinished parse ts opts cb bytes r st) =
           signals st @ [if shouldRetry (retryNotFound opts) error then Retry error
                         else Reject error] \<and>
         response error = Some \<lparr>statusCode = res_statusCode r, headers = res_headers r,
                                 body = decode_body parse (buffer opts) bytes\<rparr>))"
proof -
  have a: "parse bytes = Some v \<longrightarrow> decode_body parse buffer_opt bytes = v"
    by (simp add: decode_body_def)
  have b: "parse bytes = None \<longrightarrow>
      decode_body parse buffer_opt bytes = (if buffer_opt then JBuf bytes else JStr bytes)"
    by (simp add: decode_body_def)
  show ?thesis
    using a b handleFinished_success [of r parse ts opts bytes st]
      handleFinished_failure [of r st parse ts opts cb bytes]
    by blast
qed

theorem decode_body_json_first_witness:
  "JSON_parse_fragment ''[]'' = Some (JArr []) \<and>
   decode_body JSON_parse_fragment True ''[]'' = JArr [] \<and>
   decode_body JSON_parse_fragment False ''[]'' = JArr [] \<and>
   JSON_parse_fragment ''PNG'' = None \<and>
   decode_body JSON_parse_fragment True ''PNG'' = JBuf ''PNG'' \<and>
   decode_body JSON_parse_fragment False ''PNG'' = JStr ''PNG'' \<and>
   signals (handleFinished JSON_parse_fragment (\<lambda>v. '''') (empty_options\<lparr>buffer := True\<rparr>) None
      ''[]'' \<lparr>res_statusCode = 200, statusMessage = Some ''OK'', res_headers = Map.empty\<rparr>
      attempt_start) = [Resolve (JArr [])]"
  using decode_body_json_first [of JSON_parse_fragment "''[]''" "JArr []" True
      "\<lparr>res_statusCode = 200, statusMessage = Some ''OK'', res_headers = Map.empty\<rparr>"
      "\<lambda>v. ''''" "empty_options\<lparr>buffer := True\<rparr>" attempt_start None]
    decode_body_json_first [of JSON_parse_fragment "''[]''" "JArr []" False]
    decode_body_json_first [of JSON_parse_fragment "''PNG''" "JNull" True]
    decode_body_json_first [of JSON_parse_fragment "''PNG''" "JNull" False]
  by (simp add: JSON_parse_fragment_def empty_options_def attempt_start_def)

subsection \<open>Which errors are retried\<close>

text \<open>
  Claim C3. The first error that an attempt handles goes to the \<^verbatim>\<open>retry\<close> callback if
  it carries a response and either \<^verbatim>\<open>retryNotFound\<close> is set and the status is 404, or the
  status is at least 500 and below 600; or if it carries no response and its code is
  one of \<^verbatim>\<open>ECONNREFUSED\<close>, \<^verbatim>\<open>ECONNRESET\<close>, \<^verbatim>\<open>EPIPE\<close>, \<^verbatim>\<open>EHOSTUNREACH\<close>, \<^verbatim>\<open>EAI_AGAIN\<close>. Every
  other error goes to \<^verbatim>\<open>reject\<close>, which settles the promise and sets no timer.
\<close>

theorem handleError_classification:
  "handleError retry_not_found error (st\<lparr>handled := False\<rparr>) =
     st\<lparr>handled := True,
        signals := signals st @
          [if (case response error of
                 Some r \<Rightarrow> (retry_not_found \<and> statusCode r = 404) \<or>
                           (500 \<le> statusCode r \<and> statusCode r < 600)
               | None \<Rightarrow> code error \<in> {Some ''ECONNREFUSED'', Some ''ECONNRESET'', Some ''EPIPE'',
                                         Some ''EHOSTUNREACH'', Some ''EAI_AGAIN''})
           then Retry error else Reject error]\<rparr> \<and>
   on_signal (Reject error) rst = rst\<lparr>promise := settle_once (Rejected error) (promise rst)\<rparr>"
proof -
  have "shouldRetry retry_not_found error =
      (case response error of
         Some r \<Rightarrow> (retry_not_found \<and> statusCode r = 404) \<or>
                   (500 \<le> statusCode r \<and> statusCode r < 600)
       | None \<Rightarrow> code error \<in> {Some ''ECONNREFUSED'', Some ''ECONNRESET'', Some ''EPIPE'',
                                 Some ''EHOSTUNREACH'', Some ''EAI_AGAIN''})"
    by (auto simp add: shouldRetry_def RETRY_ERROR_CODES_def
        split: option.splits)
  then show ?thesis
    by (simp add: handleError_def)
qed

theorem handleError_classification_witness:
  "signals (handleError False \<lparr>message = ''connect'', code = Some ''ECONNREFUSED'', response = None\<rparr>
      attempt_start)
     = [Retry \<lparr>message = ''connect'', code = Some ''ECONNREFUSED'', response = None\<rparr>] \<and>
   signals (handleError False \<lparr>message = ''denied'', code = Some ''EACCES'', response = None\<rparr>
      attempt_start)
     = [Reject \<lparr>message = ''denied'', code = Some ''EACCES'', response = None\<rparr>]"
  using handleError_classification [of False
      "\<lparr>message = ''connect'', code = Some ''ECONNREFUSED'', response = None\<rparr>" attempt_start]
    handleError_classification [of False
      "\<lparr>message = ''denied'', code = Some ''EACCES'', response = None\<rparr>" attempt_start]
  by (simp add: attempt_start_def)

subsection \<open>Acting on an error once\<close>

lemma handleError_handled [simp]: "handled (handleError rnf error st)"
  by (simp add: handleError_def)

lemma handleError_noop: "handled st \<Longrightarrow> handleError rnf error st = st"
  by (simp add: handleError_def)
lemma once_handleError: "once st \<Longrightarrow> once (handleError rnf error st)"
  by (simp add: once_def handleError_def)

lemma once_handleFinished: "once st \<Longrightarrow> once (handleFinished parse ts opts cb bytes r st)"
  unfolding handleFinished_def Let_def
  by (auto simp add: once_handleError split: sum.splits option.splits) (simp_all add: once_def)

lemma once_event: "once st \<Longrightarrow> once (attempt_event parse ts opts cb ev st)"
  by (cases ev) (auto simp add: once_handleError once_handleFinished split: option.splits,
      simp_all add: once_def)

lemma once_events: "once st \<Longrightarrow> once (attempt_events parse ts opts cb evs st)"
  by (induction evs arbitrary: st) (simp_all add: once_event)

lemma fold_handleError_handled:
  "handled st \<Longrightarrow> fold (handleError rnf) errors st = st"
  by (induction errors arbitrary: st) (simp_all add: handleError_noop)

text \<open>
  Claim C8. A call of \<^verbatim>\<open>handleError\<close> after the first of an attempt changes nothing;
  the first sets the flag; of any errors handed to it in a row, only the first is
  classified and acted on; and whatever events the request and its response emit, the
  attempt retries or rejects at most once.
\<close>

theorem error_handled_once:
  "(handled st \<longrightarrow> handleError rnf error st = st) \<and>
   handled (handleError rnf error st) \<and>
   fold (handleError rnf) (error # errors) attempt_start =
     attempt_start\<lparr>handled := True,
                   signals := [if shouldRetry rnf error then Retry error else Reject error]\<rparr> \<and>
   length (filter acted (signals (attempt_events parse ts opts cb evs attempt_start))) \<le> 1"
proof -
  have a: "handled st \<longrightarrow> handleError rnf error st = st"
    by (simp add: handleError_noop)
  have b: "fold (handleError rnf) (error # errors) attempt_start =
     attempt_start\<lparr>handled := True,
                   signals := [if shouldRetry rnf error then Retry error else Reject error]\<rparr>"
    using fold_handleError_handled [of "handleError rnf error attempt_start" rnf errors]
    by (simp add: handleError_def attempt_start_def)
  have "once attempt_start" by (simp add: once_def attempt_start_def)
  then have "once (attempt_events parse ts opts cb evs attempt_start)" by (rule once_events)
  then have c: "length (filter acted (signals (attempt_events parse ts opts cb evs attempt_start))) \<le> 1"
    by (simp add: once_def split: if_splits)
  show ?thesis using a b c by simp
qed

theorem error_handled_once_witness:
  "handled (handleError False err_reset attempt_start) \<and>
   handleError False err_reset (handleError False err_reset attempt_start)
     = handleError False err_reset attempt_start \<and>
   signals (attempt_events JSON_parse_fragment (\<lambda>v. ''500'') empty_options None
      [ReqResponse \<lparr>res_statusCode = 500, statusMessage = Some ''Internal Server Error'',
                    res_headers = Map.empty\<rparr>,
       ResData ''oops'', ResError err_reset, ResEnd, ReqError err_reset] attempt_start)
     = [Retry err_reset]"
  using error_handled_once [of "handleError False err_reset attempt_start" False err_reset]
  by (simp add: handleError_def attempt_start_def err_reset_def shouldRetry_def
      RETRY_ERROR_CODES_def handleFinished_def Let_def decode_body_def
      JSON_parse_fragment_def error_detail_def nullish_def empty_options_def)

end
